theory Spec2Isabelle
  imports Complex_Main "HOL-Library.Word" "HOL-Library.Log_Nat"
begin

section \<open>The conversation state reducer (hooks/useConversationState.js)\<close>

text \<open>
  \<open>CONVERSATION_STATES\<close> and \<open>CONVERSATION_MODES\<close> are the two string enumerations of the
  hook; the reducer only ever stores these constants in \<open>currentState\<close> and \<open>mode\<close>.
\<close>

datatype conversation_state = IDLE | LISTENING | PROCESSING | SPEAKING | INTERRUPTED | ERROR

datatype conversation_mode = MODE_IDLE | CONVERSATIONAL

text \<open>
  A session id is either a non-empty string taken from the payload, or the template string
  \<open>session_<timestamp>\<close> built by the reducer, kept here as the timestamp it is built from.
\<close>

datatype session_id = Named string | Generated int

type_synonym metadata_map = "string \<rightharpoonup> string"

record conversation =
  mode :: conversation_mode
  currentState :: conversation_state
  isActive :: bool
  canInterrupt :: bool
  sessionId :: "session_id option"
  startTime :: "int option"
  lastActivity :: "int option"
  exchangeCount :: int
  error :: "string option"
  metadata :: metadata_map

text \<open>
  The actions of \<open>ACTION_TYPES\<close> with the payload fields the reducer reads
  (\<open>None\<close> is a missing payload or a missing field, both read as \<open>undefined\<close> through
  \<open>action.payload?.field\<close>), and \<open>UNKNOWN\<close> for any other action type.
\<close>

datatype action =
    START_CONVERSATION "string option" "metadata_map option"
  | END_CONVERSATION
  | START_LISTENING
  | SPEECH_DETECTED
  | START_PROCESSING
  | START_SPEAKING
  | FINISH_SPEAKING
  | INTERRUPT_SPEAKING
  | ERROR_OCCURRED "string option"
  | RESET_ERROR
  | UPDATE_SESSION "metadata_map option"
  | UNKNOWN string

definition initialState :: conversation where
  "initialState =
     \<lparr> mode = MODE_IDLE, currentState = IDLE, isActive = False, canInterrupt = False,
       sessionId = None, startTime = None, lastActivity = None, exchangeCount = 0,
       error = None, metadata = Map.empty \<rparr>"

text \<open>\<open>x || d\<close> on an optional string: \<open>undefined\<close> and the empty string are falsy.\<close>

fun truthy_string :: "string option \<Rightarrow> bool" where
  "truthy_string None = False"
| "truthy_string (Some s) = (s \<noteq> [])"

text \<open>
  \<open>conversationReducer\<close>; the first argument is the value of \<open>Date.now()\<close> read at
  the top of the function.
\<close>

fun conversationReducer :: "int \<Rightarrow> conversation \<Rightarrow> action \<Rightarrow> conversation" where
  "conversationReducer timestamp state (START_CONVERSATION sid md) =
     state\<lparr> mode := CONVERSATIONAL,
            currentState := LISTENING,
            isActive := True,
            sessionId := Some (if truthy_string sid then Named (the sid) else Generated timestamp),
            startTime := Some timestamp,
            lastActivity := Some timestamp,
            exchangeCount := 0,
            error := None,
            metadata := (case md of None \<Rightarrow> Map.empty | Some m \<Rightarrow> m) \<rparr>"
| "conversationReducer timestamp state END_CONVERSATION =
     state\<lparr> mode := MODE_IDLE,
            currentState := IDLE,
            isActive := False,
            canInterrupt := False,
            sessionId := None,
            startTime := None,
            lastActivity := Some timestamp,
            error := None \<rparr>"
| "conversationReducer timestamp state START_LISTENING =
     state\<lparr> currentState := LISTENING,
            canInterrupt := False,
            lastActivity := Some timestamp,
            error := None \<rparr>"
| "conversationReducer timestamp state SPEECH_DETECTED =
     state\<lparr> currentState := PROCESSING,
            lastActivity := Some timestamp \<rparr>"
| "conversationReducer timestamp state START_PROCESSING =
     state\<lparr> currentState := PROCESSING,
            canInterrupt := False,
            lastActivity := Some timestamp \<rparr>"
| "conversationReducer timestamp state START_SPEAKING =
     state\<lparr> currentState := SPEAKING,
            canInterrupt := True,
            lastActivity := Some timestamp,
            exchangeCount := exchangeCount state + 1 \<rparr>"
| "conversationReducer timestamp state FINISH_SPEAKING =
     state\<lparr> currentState := (if mode state = CONVERSATIONAL then LISTENING else IDLE),
            canInterrupt := False,
            lastActivity := Some timestamp \<rparr>"
| "conversationReducer timestamp state INTERRUPT_SPEAKING =
     state\<lparr> currentState := INTERRUPTED,
            canInterrupt := False,
            lastActivity := Some timestamp \<rparr>"
| "conversationReducer timestamp state (ERROR_OCCURRED err) =
     state\<lparr> currentState := ERROR,
            canInterrupt := False,
            error := Some (if truthy_string err then the err else ''Unknown error occurred''),
            lastActivity := Some timestamp \<rparr>"
| "conversationReducer timestamp state RESET_ERROR =
     state\<lparr> currentState := (if mode state = CONVERSATIONAL then LISTENING else IDLE),
            error := None,
            lastActivity := Some timestamp \<rparr>"
| "conversationReducer timestamp state (UPDATE_SESSION md) =
     state\<lparr> metadata := (case md of None \<Rightarrow> metadata state | Some m \<Rightarrow> metadata state ++ m),
            lastActivity := Some timestamp \<rparr>"
| "conversationReducer timestamp state (UNKNOWN ty) = state"

subsection \<open>The hook around the reducer\<close>

text \<open>
  The configuration object of \<open>useConversationState\<close>. Every default is overridden by
  the caller's option when the option is present (\<open>...options\<close> comes last), so
  \<open>maxExchanges\<close> can be any number, zero and negatives included.
\<close>

record options =
  opt_autoReturnToListening :: "bool option"
  opt_errorTimeout :: "int option"
  opt_sessionTimeout :: "int option"
  opt_maxExchanges :: "int option"

record config =
  autoReturnToListening :: bool
  errorTimeout :: int
  sessionTimeout :: int
  maxExchanges :: int

definition mkConfig :: "options \<Rightarrow> config" where
  "mkConfig opts =
     \<lparr> autoReturnToListening = (case opt_autoReturnToListening opts of None \<Rightarrow> True | Some b \<Rightarrow> b),
       errorTimeout = (case opt_errorTimeout opts of None \<Rightarrow> 5000 | Some n \<Rightarrow> n),
       sessionTimeout = (case opt_sessionTimeout opts of None \<Rightarrow> 300000 | Some n \<Rightarrow> n),
       maxExchanges = (case opt_maxExchanges opts of None \<Rightarrow> 50 | Some n \<Rightarrow> n) \<rparr>"

text \<open>The default argument of the hook, \<open>options = {}\<close>.\<close>

definition noOptions :: options where
  "noOptions = \<lparr> opt_autoReturnToListening = None, opt_errorTimeout = None,
                 opt_sessionTimeout = None, opt_maxExchanges = None \<rparr>"

text \<open>
  The hook's state: the reducer state, the two timer references (\<open>Some d\<close> is an armed
  timer of \<open>d\<close> milliseconds, \<open>None\<close> is \<open>null\<close>), and the delays of the timeouts that
  \<open>interruptSpeaking\<close> schedules without keeping a reference. The callbacks run when
  they are called, on the state the hook then has; a timer's callback is a later call of
  its own.
\<close>

record hook =
  conv :: conversation
  errorTimeoutRef :: "int option"
  sessionTimeoutRef :: "int option"
  listenTimeouts :: "int list"

definition dispatch :: "int \<Rightarrow> action \<Rightarrow> hook \<Rightarrow> hook" where
  "dispatch timestamp a h = h\<lparr> conv := conversationReducer timestamp (conv h) a \<rparr>"

definition endConversation :: "int \<Rightarrow> hook \<Rightarrow> hook" where
  "endConversation timestamp h =
     (dispatch timestamp END_CONVERSATION h)\<lparr> errorTimeoutRef := None, sessionTimeoutRef := None \<rparr>"

definition startListening :: "int \<Rightarrow> hook \<Rightarrow> hook" where
  "startListening timestamp h = dispatch timestamp START_LISTENING h"

definition onSpeechDetected :: "int \<Rightarrow> hook \<Rightarrow> hook" where
  "onSpeechDetected timestamp h =
     (if currentState (conv h) = LISTENING then dispatch timestamp SPEECH_DETECTED h else h)"

definition startSpeaking :: "config \<Rightarrow> int \<Rightarrow> hook \<Rightarrow> hook" where
  "startSpeaking cfg timestamp h =
     (if maxExchanges cfg > 0 \<and> exchangeCount (conv h) \<ge> maxExchanges cfg
      then endConversation timestamp h
      else dispatch timestamp START_SPEAKING h)"

definition finishSpeaking :: "int \<Rightarrow> hook \<Rightarrow> hook" where
  "finishSpeaking timestamp h = dispatch timestamp FINISH_SPEAKING h"

definition interruptSpeaking :: "config \<Rightarrow> int \<Rightarrow> hook \<Rightarrow> hook" where
  "interruptSpeaking cfg timestamp h =
     (if canInterrupt (conv h)
      then (let h' = dispatch timestamp INTERRUPT_SPEAKING h
            in if autoReturnToListening cfg
               then h'\<lparr> listenTimeouts := listenTimeouts h' @ [100] \<rparr>
               else h')
      else h)"

definition clearError :: "int \<Rightarrow> hook \<Rightarrow> hook" where
  "clearError timestamp h = dispatch timestamp RESET_ERROR (h\<lparr> errorTimeoutRef := None \<rparr>)"

text \<open>The utility \<open>canInterrupt()\<close> that the hook returns beside the state.\<close>

definition canInterrupt_fn :: "hook \<Rightarrow> bool" where
  "canInterrupt_fn h = (canInterrupt (conv h) \<and> currentState (conv h) = SPEAKING)"

definition initialHook :: hook where
  "initialHook = \<lparr> conv = initialState, errorTimeoutRef = None, sessionTimeoutRef = None,
                   listenTimeouts = [] \<rparr>"

text \<open>
  Runs of reducer actions, each with the timestamp of its call. \<open>runActions guard\<close> applies
  the actions in order as long as \<open>guard state action\<close> allows the next one, and is
  \<open>None\<close> when an action is applied where the guard forbids it.
\<close>

fun runActions :: "(conversation \<Rightarrow> action \<Rightarrow> bool) \<Rightarrow> (int \<times> action) list \<Rightarrow> conversation
                   \<Rightarrow> conversation option" where
  "runActions guard [] state = Some state"
| "runActions guard ((timestamp, a) # rest) state =
     (if guard state a then runActions guard rest (conversationReducer timestamp state a) else None)"

text \<open>The guard of \<open>onSpeechDetected\<close>: \<open>SPEECH_DETECTED\<close> only while listening.\<close>

definition speechGuard :: "conversation \<Rightarrow> action \<Rightarrow> bool" where
  "speechGuard state a = (a = SPEECH_DETECTED \<longrightarrow> currentState state = LISTENING)"

text \<open>
  The stronger guard under which the interrupt flag follows the speaking state: beside the
  guard of \<open>onSpeechDetected\<close>, \<open>START_CONVERSATION\<close> and \<open>RESET_ERROR\<close> are not applied
  while speaking.
\<close>

fun strictGuard :: "conversation \<Rightarrow> action \<Rightarrow> bool" where
  "strictGuard state SPEECH_DETECTED = (currentState state = LISTENING)"
| "strictGuard state (START_CONVERSATION sid md) = (currentState state \<noteq> SPEAKING)"
| "strictGuard state RESET_ERROR = (currentState state \<noteq> SPEAKING)"
| "strictGuard state a = True"

definition interruptInvariant :: "conversation \<Rightarrow> bool" where
  "interruptInvariant state = (canInterrupt state = (currentState state = SPEAKING))"

section \<open>Voice activity detection (utils/voiceActivityDetection.js)\<close>

text \<open>
  The thresholds of \<open>this.config\<close> that the analysis loop reads. Times are the integer
  milliseconds of \<open>Date.now()\<close>. The volume and \<open>silenceThreshold\<close> are JavaScript
  numbers, that is IEEE 754 binary64 values: a finite one is the rational it stands for,
  and \<open>None\<close> is \<open>NaN\<close> (the value of \<open>0 / 0\<close> on an empty data array).
\<close>

record vad_config =
  silenceThreshold :: rat
  speechTimeout :: int
  minSpeechDuration :: int
  maxSpeechDuration :: int

text \<open>The constructor's \<open>options.x || d\<close>: a missing option and \<open>0\<close> both give the default.\<close>

record vad_options =
  opt_silenceThreshold :: "rat option"
  opt_speechTimeout :: "int option"
  opt_minSpeechDuration :: "int option"
  opt_maxSpeechDuration :: "int option"

fun or_default :: "'a::zero option \<Rightarrow> 'a \<Rightarrow> 'a" where
  "or_default None d = d"
| "or_default (Some x) d = (if x = 0 then d else x)"

definition vadConfig :: "vad_options \<Rightarrow> vad_config" where
  "vadConfig opts =
     \<lparr> silenceThreshold = or_default (opt_silenceThreshold opts) 30,
       speechTimeout = or_default (opt_speechTimeout opts) 1500,
       minSpeechDuration = or_default (opt_minSpeechDuration opts) 500,
       maxSpeechDuration = or_default (opt_maxSpeechDuration opts) 30000 \<rparr>"


record vad =
  vad_isActive :: bool
  isSpeaking :: bool
  speechStartTime :: "int option"
  lastSpeechTime :: "int option"
  silenceStartTime :: "int option"

text \<open>The callbacks a call fires, in the order they are fired.\<close>

datatype vad_event = OnSpeechStart | OnSpeechEnd int | OnVolumeChange "rat option"



text \<open>
  A time field holds \<open>null\<close> or a number. In arithmetic \<open>null\<close> converts to \<open>0\<close>; in
  \<open>!x\<close> and \<open>x || y\<close> both \<open>null\<close> and \<open>0\<close> are falsy.
\<close>

fun toNumber :: "int option \<Rightarrow> int" where
  "toNumber None = 0"
| "toNumber (Some t) = t"

fun falsy :: "int option \<Rightarrow> bool" where
  "falsy None = True"
| "falsy (Some t) = (t = 0)"

text \<open>\<open>a > b\<close> on numbers: every comparison with \<open>NaN\<close> is false.\<close>

fun js_gt :: "rat option \<Rightarrow> rat \<Rightarrow> bool" where
  "js_gt None b = False"
| "js_gt (Some a) b = (a > b)"

subsection \<open>Arithmetic on numbers\<close>

text \<open>
  A division or a multiplication of two numbers gives the binary64 value nearest to the
  exact result, ties going to the even significand. \<open>fl\<close> is that rounding: the exponent
  of \<open>x\<close> is the \<open>e\<close> with \<open>2\<^sup>e \<le> \<bar>x\<bar> < 2\<^sup>e\<^sup>+\<^sup>1\<close> (not below \<open>-1022\<close>, where the subnormal
  numbers begin), the spacing of the binary64 values around \<open>x\<close> is \<open>2\<^sup>e\<^sup>-\<^sup>5\<^sup>2\<close>, and \<open>x\<close>
  goes to the nearest multiple of the spacing. A result of \<open>2\<^sup>1\<^sup>0\<^sup>2\<^sup>4\<close> or more would be
  \<open>Infinity\<close>; the operands of \<open>calculateVolume\<close> are far below.
\<close>

definition pow2 :: "int \<Rightarrow> rat" where
  "pow2 e = (if 0 \<le> e then 2 ^ nat e else 1 / 2 ^ nat (- e))"

definition exponent :: "rat \<Rightarrow> int" where
  "exponent x = (if 1 \<le> x then bitlen \<lfloor>x\<rfloor> - 1 else - bitlen (\<lceil>1 / x\<rceil> - 1))"

definition roundTiesToEven :: "rat \<Rightarrow> int" where
  "roundTiesToEven x =
     (let f = \<lfloor>x\<rfloor>; d = x - of_int f
      in if d < 1 / 2 then f else if 1 / 2 < d then f + 1 else if even f then f else f + 1)"

definition fl :: "rat \<Rightarrow> rat" where
  "fl x = (if x = 0 then 0
           else (let e = max (exponent \<bar>x\<bar>) (- 1022); spacing = pow2 (e - 52)
                 in sgn x * of_int (roundTiesToEven (\<bar>x\<bar> / spacing)) * spacing))"

text \<open>\<open>a / b\<close> for \<open>b \<noteq> 0\<close>, and \<open>a * b\<close>.\<close>

definition fdiv :: "rat \<Rightarrow> rat \<Rightarrow> rat" where
  "fdiv a b = fl (a / b)"

definition fmul :: "rat \<Rightarrow> rat \<Rightarrow> rat" where
  "fmul a b = fl (a * b)"

subsection \<open>The detector\<close>

text \<open>
  \<open>calculateVolume\<close> over the \<open>Uint8Array\<close> of frequency bins: the loop adds the bytes up
  (an integer below \<open>2\<^sup>5\<^sup>3\<close> for any typed array, so every addition is exact), the sum is
  divided by the length, and the mean is divided by 255, multiplied by 100 and capped by
  \<open>Math.min\<close>.
\<close>

definition calculateVolume :: "8 word list \<Rightarrow> rat option" where
  "calculateVolume dataArray =
     (let sum = foldl (\<lambda>acc b. acc + unat b) 0 dataArray
      in if length dataArray = 0 then None
         else (let average = fdiv (of_nat sum) (of_nat (length dataArray))
               in Some (min 100 (fmul (fdiv average 255) 100))))"

text \<open>
  \<open>handleSpeechEnd\<close>; \<open>now\<close> is the \<open>Date.now()\<close> it reads when \<open>silenceStartTime\<close> is
  falsy.
\<close>

definition handleSpeechEnd :: "int \<Rightarrow> vad \<Rightarrow> vad \<times> vad_event list" where
  "handleSpeechEnd now s =
     (if isSpeaking s
      then (let speechDuration =
                  (if falsy (silenceStartTime s) then now else toNumber (silenceStartTime s))
                    - toNumber (speechStartTime s)
            in (s\<lparr> isSpeaking := False, speechStartTime := None, silenceStartTime := None \<rparr>,
                [OnSpeechEnd speechDuration]))
      else (s, []))"

definition handleSpeechDetected :: "vad_config \<Rightarrow> int \<Rightarrow> int \<Rightarrow> vad \<Rightarrow> vad \<times> vad_event list" where
  "handleSpeechDetected cfg currentTime now s =
     (let s1 = s\<lparr> lastSpeechTime := Some currentTime, silenceStartTime := None \<rparr>;
          (s2, started) =
             (if \<not> isSpeaking s1
              then (s1\<lparr> speechStartTime := Some currentTime, isSpeaking := True \<rparr>, [OnSpeechStart])
              else (s1, []));
          speechDuration = currentTime - toNumber (speechStartTime s2)
      in if speechDuration > maxSpeechDuration cfg
         then (let (s3, ended) = handleSpeechEnd now s2 in (s3, started @ ended))
         else (s2, started))"

definition handleSilenceDetected :: "vad_config \<Rightarrow> int \<Rightarrow> int \<Rightarrow> vad \<Rightarrow> vad \<times> vad_event list" where
  "handleSilenceDetected cfg currentTime now s =
     (if isSpeaking s
      then (let s1 = (if falsy (silenceStartTime s)
                      then s\<lparr> silenceStartTime := Some currentTime \<rparr> else s);
                silenceDuration = currentTime - toNumber (silenceStartTime s1)
            in if silenceDuration > speechTimeout cfg
               then (let speechDuration =
                           toNumber (silenceStartTime s1) - toNumber (speechStartTime s1)
                     in if speechDuration \<ge> minSpeechDuration cfg
                        then handleSpeechEnd now s1
                        else (s1\<lparr> isSpeaking := False, speechStartTime := None,
                                  silenceStartTime := None \<rparr>, []))
               else (s1, []))
      else (s, []))"

text \<open>
  One polled frame: the bytes \<open>getByteFrequencyData\<close> wrote, the \<open>Date.now()\<close> that
  \<open>analyzeAudio\<close> reads, and the one \<open>handleSpeechEnd\<close> reads after it.
\<close>

record frame =
  dataArray :: "8 word list"
  frameTime :: int
  endTime :: int

definition isSpeechDetected :: "vad_config \<Rightarrow> 8 word list \<Rightarrow> bool" where
  "isSpeechDetected cfg bins = js_gt (calculateVolume bins) (silenceThreshold cfg)"

definition analyzeAudio :: "vad_config \<Rightarrow> frame \<Rightarrow> vad \<Rightarrow> vad \<times> vad_event list" where
  "analyzeAudio cfg f s =
     (if \<not> vad_isActive s then (s, [])
      else (let volume = calculateVolume (dataArray f);
                (s', fired) =
                   (if isSpeechDetected cfg (dataArray f)
                    then handleSpeechDetected cfg (frameTime f) (endTime f) s
                    else handleSilenceDetected cfg (frameTime f) (endTime f) s)
            in (s', OnVolumeChange volume # fired)))"

text \<open>
  \<open>start\<close> on an initialised detector, and the loop that \<open>requestAnimationFrame\<close> keeps
  going: one call of \<open>analyzeAudio\<close> per frame.
\<close>

definition start :: "vad \<Rightarrow> vad" where
  "start s = s\<lparr> vad_isActive := True, isSpeaking := False, speechStartTime := None,
               lastSpeechTime := None, silenceStartTime := None \<rparr>"

definition newVad :: vad where
  "newVad = \<lparr> vad_isActive = False, isSpeaking = False, speechStartTime = None,
             lastSpeechTime = None, silenceStartTime = None \<rparr>"

text \<open>
  \<open>stop\<close>: the loop is cancelled, and a speech in progress is ended whatever it has lasted;
  \<open>now\<close> is the \<open>Date.now()\<close> of \<open>handleSpeechEnd\<close>.
\<close>

definition stop :: "int \<Rightarrow> vad \<Rightarrow> vad \<times> vad_event list" where
  "stop now s =
     (let s1 = s\<lparr> vad_isActive := False \<rparr>
      in if isSpeaking s1 then handleSpeechEnd now s1 else (s1, []))"



text \<open>
  The volume as the specification words it, to be compared with \<open>calculateVolume\<close>: the
  mean of the frequency-bin bytes, divided by 255, times 100, capped at 100, each
  operation being the one on numbers. \<open>exactVolume\<close> is the same formula without
  rounding, which the code does not compute.
\<close>

definition mean :: "8 word list \<Rightarrow> rat" where
  "mean bins = fdiv (of_nat (sum_list (map unat bins))) (of_nat (length bins))"

definition specVolume :: "8 word list \<Rightarrow> rat" where
  "specVolume bins = min 100 (fmul (fdiv (mean bins) 255) 100)"

definition exactVolume :: "8 word list \<Rightarrow> rat" where
  "exactVolume bins =
     min 100 ((of_nat (sum_list (map unat bins)) / of_nat (length bins)) / 255 * 100)"

section \<open>Text processing for speech (utils/textProcessor.js)\<close>

subsection \<open>Strings and the regular expressions the module uses\<close>

text \<open>
  A JavaScript string is a sequence of UTF-16 code units, and the regular expressions of
  the module (none has the \<open>u\<close> flag) match code unit by code unit. \<open>js\<close> writes an
  ASCII literal as such a string.
\<close>

type_synonym jschar = "16 word"
type_synonym jsstring = "jschar list"

definition js :: "string \<Rightarrow> jsstring" where
  "js s = map of_char s"

text \<open>
  The class \<open>\s\<close>, which is also what \<open>trim\<close> strips: the white space and line
  terminator code points of ECMAScript.
\<close>

definition is_space :: "jschar \<Rightarrow> bool" where
  "is_space c =
     (c \<in> set [0x09, 0x0A, 0x0B, 0x0C, 0x0D, 0x20, 0xA0, 0x1680, 0x2028, 0x2029,
                0x202F, 0x205F, 0x3000, 0xFEFF] \<or> (0x2000 \<le> c \<and> c \<le> 0x200A))"

definition is_line_terminator :: "jschar \<Rightarrow> bool" where
  "is_line_terminator c = (c \<in> set [0x0A, 0x0D, 0x2028, 0x2029])"

text \<open>
  The pattern language the module needs. An atom matches one code unit: a literal, a class
  \<open>[...]\<close>, a negated class \<open>[^...]\<close>, \<open>\s\<close>, \<open>\d\<close>, or \<open>[\s\S]\<close>. A pattern is a sequence
  of items: one atom; an atom under a quantifier (\<open>Rep greedy min max\<close>, so \<open>+\<close> is
  \<open>Rep True 1 None\<close>, \<open>*?\<close> is \<open>Rep False 0 None\<close>, \<open>{1,6}\<close> is \<open>Rep True 1 (Some 6)\<close>);
  \<open>^\<close> and \<open>$\<close> under the \<open>m\<close> flag (every pattern that has an anchor has the flag); and the
  parentheses of the one capture group.
\<close>

datatype atom = Lit jschar | OneOf jsstring | NoneOf jsstring | Space | Digit | AnyChar

fun amatch :: "atom \<Rightarrow> jschar \<Rightarrow> bool" where
  "amatch (Lit x) c = (c = x)"
| "amatch (OneOf xs) c = (c \<in> set xs)"
| "amatch (NoneOf xs) c = (c \<notin> set xs)"
| "amatch Space c = is_space c"
| "amatch Digit c = (0x30 \<le> c \<and> c \<le> 0x39)"
| "amatch AnyChar c = True"

datatype item = One atom | Rep bool nat "nat option" atom | Bol | Eol | Open | Close

text \<open>
  The backtracking matcher at one position: \<open>prev\<close> is the code unit before the position
  (\<open>None\<close> at the start of the string), \<open>opened\<close> the input left where the group opened,
  \<open>cap\<close> the text captured so far. The result is the first match in the engine's order
  of preference (a greedy quantifier tries one more repetition before it lets the rest of
  the pattern go on, a lazy one the other way round), as the captured text and the input
  left after the match.
\<close>

fun rmatch :: "item list \<Rightarrow> jschar option \<Rightarrow> jsstring \<Rightarrow> jsstring \<Rightarrow> jsstring
                \<Rightarrow> (jsstring \<times> jsstring) option" where
  "rmatch [] prev opened cap s = Some (cap, s)"
| "rmatch (One a # r) prev opened cap [] = None"
| "rmatch (One a # r) prev opened cap (c # cs) =
     (if amatch a c then rmatch r (Some c) opened cap cs else None)"
| "rmatch (Rep greedy mn mx a # r) prev opened cap s =
     (let stop = (if mn = 0 then rmatch r prev opened cap s else None);
          more = (case s of
                    [] \<Rightarrow> None
                  | c # cs \<Rightarrow>
                      if mx \<noteq> Some 0 \<and> amatch a c
                      then rmatch (Rep greedy (mn - 1) (map_option (\<lambda>m. m - 1) mx) a # r)
                             (Some c) opened cap cs
                      else None)
      in if greedy
         then (case more of Some m \<Rightarrow> Some m | None \<Rightarrow> stop)
         else (case stop of Some m \<Rightarrow> Some m | None \<Rightarrow> more))"
| "rmatch (Bol # r) prev opened cap s =
     (if (case prev of None \<Rightarrow> True | Some p \<Rightarrow> is_line_terminator p)
      then rmatch r prev opened cap s else None)"
| "rmatch (Eol # r) prev opened cap s =
     (if (case s of [] \<Rightarrow> True | c # cs \<Rightarrow> is_line_terminator c)
      then rmatch r prev opened cap s else None)"
| "rmatch (Open # r) prev opened cap s = rmatch r prev s cap s"
| "rmatch (Close # r) prev opened cap s =
     rmatch r prev opened (take (length opened - length s) opened) s"

text \<open>\<open>RegExp.prototype.test\<close> without the \<open>g\<close> flag: a match at some position.\<close>

fun test_from :: "item list \<Rightarrow> jschar option \<Rightarrow> jsstring \<Rightarrow> bool" where
  "test_from re prev [] = (rmatch re prev [] [] [] \<noteq> None)"
| "test_from re prev (c # cs) =
     (rmatch re prev [] [] (c # cs) \<noteq> None \<or> test_from re (Some c) cs)"

definition test :: "item list \<Rightarrow> jsstring \<Rightarrow> bool" where
  "test re s = test_from re None s"

text \<open>
  \<open>String.prototype.replace\<close> with a \<open>g\<close> pattern: the matches are found from left to
  right, each search starting where the last match ended (one code unit further after an
  empty match); the text between matches is kept, each match becomes the replacement, in
  which \<open>$1\<close> is the captured text.
\<close>

datatype replacement = Text jsstring | Group1

fun expand :: "replacement \<Rightarrow> jsstring \<Rightarrow> jsstring" where
  "expand (Text t) cap = t"
| "expand Group1 cap = cap"

fun replace_from :: "item list \<Rightarrow> replacement \<Rightarrow> jschar option \<Rightarrow> jsstring \<Rightarrow> jsstring" where
  "replace_from re rp prev [] =
     (case rmatch re prev [] [] [] of None \<Rightarrow> [] | Some (cap, rest) \<Rightarrow> expand rp cap)"
| "replace_from re rp prev (c # cs) =
     (case rmatch re prev [] [] (c # cs) of
        None \<Rightarrow> c # replace_from re rp (Some c) cs
      | Some (cap, rest) \<Rightarrow>
          if length rest < Suc (length cs)
          then expand rp cap @
               replace_from re rp (Some ((c # cs) ! (length cs - length rest))) rest
          else expand rp cap @ c # replace_from re rp (Some c) cs)"

definition replace :: "item list \<Rightarrow> replacement \<Rightarrow> jsstring \<Rightarrow> jsstring" where
  "replace re rp s = replace_from re rp None s"

text \<open>\<open>String.prototype.trim\<close>.\<close>

definition trim :: "jsstring \<Rightarrow> jsstring" where
  "trim s = rev (dropWhile is_space (rev (dropWhile is_space s)))"

subsection \<open>The patterns\<close>

definition backtick :: jschar where "backtick = 0x60"
definition hash :: jschar where "hash = 0x23"
definition star :: jschar where "star = 0x2A"
definition underscore :: jschar where "underscore = 0x5F"
definition tilde :: jschar where "tilde = 0x7E"
definition pipe :: jschar where "pipe = 0x7C"
definition lbracket :: jschar where "lbracket = 0x5B"
definition rbracket :: jschar where "rbracket = 0x5D"
definition lparen :: jschar where "lparen = 0x28"
definition rparen :: jschar where "rparen = 0x29"
definition bang :: jschar where "bang = 0x21"
definition greater_than :: jschar where "greater_than = 0x3E"
definition hyphen :: jschar where "hyphen = 0x2D"
definition plus_sign :: jschar where "plus_sign = 0x2B"
definition period :: jschar where "period = 0x2E"
definition blank :: jschar where "blank = 0x20"

text \<open>\<^verbatim>\<open>/```[\s\S]*?```/\<close>\<close>
definition re_code_block :: "item list" where
  "re_code_block = [One (Lit backtick), One (Lit backtick), One (Lit backtick),
                    Rep False 0 None AnyChar,
                    One (Lit backtick), One (Lit backtick), One (Lit backtick)]"

text \<open>\<^verbatim>\<open>/`([^`]+)`/\<close>\<close>
definition re_inline_code :: "item list" where
  "re_inline_code = [One (Lit backtick), Open, Rep True 1 None (NoneOf [backtick]), Close,
                     One (Lit backtick)]"

text \<open>\<^verbatim>\<open>/^#{1,6}\s+/m\<close>\<close>
definition re_header :: "item list" where
  "re_header = [Bol, Rep True 1 (Some 6) (Lit hash), Rep True 1 None Space]"

text \<open>\<^verbatim>\<open>/\*\*([^*]+)\*\*/\<close>\<close>
definition re_bold_star :: "item list" where
  "re_bold_star = [One (Lit star), One (Lit star), Open, Rep True 1 None (NoneOf [star]), Close,
                   One (Lit star), One (Lit star)]"

text \<open>\<^verbatim>\<open>/__([^_]+)__/\<close>\<close>
definition re_bold_underscore :: "item list" where
  "re_bold_underscore = [One (Lit underscore), One (Lit underscore), Open,
                         Rep True 1 None (NoneOf [underscore]), Close,
                         One (Lit underscore), One (Lit underscore)]"

text \<open>\<^verbatim>\<open>/\*([^*]+)\*/\<close>\<close>
definition re_italic_star :: "item list" where
  "re_italic_star = [One (Lit star), Open, Rep True 1 None (NoneOf [star]), Close, One (Lit star)]"

text \<open>\<^verbatim>\<open>/_([^_]+)_/\<close>\<close>
definition re_italic_underscore :: "item list" where
  "re_italic_underscore = [One (Lit underscore), Open, Rep True 1 None (NoneOf [underscore]), Close,
                           One (Lit underscore)]"

text \<open>\<^verbatim>\<open>/~~([^~]+)~~/\<close>\<close>
definition re_strikethrough :: "item list" where
  "re_strikethrough = [One (Lit tilde), One (Lit tilde), Open, Rep True 1 None (NoneOf [tilde]),
                       Close, One (Lit tilde), One (Lit tilde)]"

text \<open>\<^verbatim>\<open>/\[([^\]]+)\]\([^)]+\)/\<close>\<close>
definition re_link :: "item list" where
  "re_link = [One (Lit lbracket), Open, Rep True 1 None (NoneOf [rbracket]), Close,
              One (Lit rbracket), One (Lit lparen), Rep True 1 None (NoneOf [rparen]),
              One (Lit rparen)]"

text \<open>\<^verbatim>\<open>/!\[([^\]]*)\]\([^)]+\)/\<close>\<close>
definition re_image :: "item list" where
  "re_image = [One (Lit bang), One (Lit lbracket), Open, Rep True 0 None (NoneOf [rbracket]), Close,
               One (Lit rbracket), One (Lit lparen), Rep True 1 None (NoneOf [rparen]),
               One (Lit rparen)]"

text \<open>\<^verbatim>\<open>/^>\s*/m\<close>, as \<open>cleanMarkdownForSpeech\<close> has it\<close>
definition re_blockquote_clean :: "item list" where
  "re_blockquote_clean = [Bol, One (Lit greater_than), Rep True 0 None Space]"

text \<open>\<^verbatim>\<open>/^>\s+/m\<close>, as \<open>hasMarkdownSyntax\<close> has it\<close>
definition re_blockquote :: "item list" where
  "re_blockquote = [Bol, One (Lit greater_than), Rep True 1 None Space]"

text \<open>\<^verbatim>\<open>/^[-*]{3,}$/m\<close>\<close>
definition re_horizontal_rule :: "item list" where
  "re_horizontal_rule = [Bol, Rep True 3 None (OneOf [hyphen, star]), Eol]"

text \<open>\<^verbatim>\<open>/\|/\<close>\<close>
definition re_pipe :: "item list" where
  "re_pipe = [One (Lit pipe)]"

text \<open>\<^verbatim>\<open>/[#*_`~|]/\<close>\<close>
definition markdown_symbols :: jsstring where
  "markdown_symbols = [hash, star, underscore, backtick, tilde, pipe]"

definition re_symbols :: "item list" where
  "re_symbols = [One (OneOf markdown_symbols)]"

text \<open>\<^verbatim>\<open>/\s+/\<close>\<close>
definition re_whitespace :: "item list" where
  "re_whitespace = [Rep True 1 None Space]"

text \<open>\<^verbatim>\<open>/^[-*+]\s+/m\<close>\<close>
definition re_list :: "item list" where
  "re_list = [Bol, One (OneOf [hyphen, star, plus_sign]), Rep True 1 None Space]"

text \<open>\<^verbatim>\<open>/^\d+\.\s+/m\<close>\<close>
definition re_numbered_list :: "item list" where
  "re_numbered_list = [Bol, Rep True 1 None Digit, One (Lit period), Rep True 1 None Space]"

subsection \<open>The two functions\<close>

text \<open>The values a caller can pass for \<open>text\<close>.\<close>

datatype js_value =
    JSUndefined | JSNull | JSBoolean bool | JSNumber rat | JSString jsstring | JSObject

text \<open>
  \<open>!text || typeof text !== 'string'\<close>: true of everything but a non-empty string (for a
  value that is not a string the second disjunct holds whatever the first does).
\<close>

fun not_a_text :: "js_value \<Rightarrow> bool" where
  "not_a_text (JSString s) = (s = [])"
| "not_a_text v = True"

fun string_of :: "js_value \<Rightarrow> jsstring" where
  "string_of (JSString s) = s"
| "string_of v = []"

definition cleanMarkdownForSpeech :: "js_value \<Rightarrow> jsstring" where
  "cleanMarkdownForSpeech text =
     (if not_a_text text then []
      else (let cleanText = string_of text;
                cleanText = replace re_code_block (Text (js '' code block '')) cleanText;
                cleanText = replace re_inline_code Group1 cleanText;
                cleanText = replace re_header (Text []) cleanText;
                cleanText = replace re_bold_star Group1 cleanText;
                cleanText = replace re_bold_underscore Group1 cleanText;
                cleanText = replace re_italic_star Group1 cleanText;
                cleanText = replace re_italic_underscore Group1 cleanText;
                cleanText = replace re_strikethrough Group1 cleanText;
                cleanText = replace re_link Group1 cleanText;
                cleanText = replace re_image Group1 cleanText;
                cleanText = replace re_blockquote_clean (Text []) cleanText;
                cleanText = replace re_horizontal_rule (Text []) cleanText;
                cleanText = replace re_pipe (Text [blank]) cleanText;
                cleanText = replace re_symbols (Text []) cleanText;
                cleanText = trim (replace re_whitespace (Text [blank]) cleanText)
            in cleanText))"

definition markdownPatterns :: "item list list" where
  "markdownPatterns =
     [re_header, re_bold_star, re_bold_underscore, re_italic_star, re_italic_underscore,
      re_inline_code, re_code_block, re_link, re_image, re_blockquote, re_list,
      re_numbered_list, re_strikethrough]"

definition hasMarkdownSyntax :: "js_value \<Rightarrow> bool" where
  "hasMarkdownSyntax text =
     (if not_a_text text then False
      else list_ex (\<lambda>pattern. test pattern (string_of text)) markdownPatterns)"

text \<open>
  Two predicates for the proofs: a text without two white-space code units in a row, and a
  pattern item that cannot match unless the text contains the code unit \<open>c\<close>.
\<close>

fun no_space_run :: "jsstring \<Rightarrow> bool" where
  "no_space_run (a # b # r) = (\<not> (is_space a \<and> is_space b) \<and> no_space_run (b # r))"
| "no_space_run s = True"

fun needs :: "jschar \<Rightarrow> item \<Rightarrow> bool" where
  "needs c (One (Lit x)) = (x = c)"
| "needs c (Rep greedy mn mx (Lit x)) = (x = c \<and> mn > 0)"
| "needs c i = False"

subsection \<open>Concrete inputs\<close>



text \<open>
  A frame with half of its bins at 255 and half at 0, and the configuration a caller gets
  with \<open>silenceThreshold: 50\<close>.
\<close>

definition halfFrame :: "int \<Rightarrow> frame" where
  "halfFrame t =
     \<lparr> dataArray = [255, 255, 255, 255, 255, 255, 255, 255, 0, 0, 0, 0, 0, 0, 0, 0],
       frameTime = t, endTime = t \<rparr>"

definition thresholdFifty :: vad_config where
  "thresholdFifty =
     vadConfig \<lparr> opt_silenceThreshold = Some 50, opt_speechTimeout = None,
                 opt_minSpeechDuration = None, opt_maxSpeechDuration = None \<rparr>"

text \<open>
  A frame whose exact volume is 55 (the mean of its bins is 140.25) and whose computed
  volume is the next number above 55, and the configuration with \<open>silenceThreshold: 55\<close>.
\<close>

definition edgeFrame :: "int \<Rightarrow> frame" where
  "edgeFrame t =
     \<lparr> dataArray = [255, 255, 255, 255, 255, 255, 255, 255, 204, 0, 0, 0, 0, 0, 0, 0],
       frameTime = t, endTime = t \<rparr>"

definition thresholdFiftyFive :: vad_config where
  "thresholdFiftyFive =
     vadConfig \<lparr> opt_silenceThreshold = Some 55, opt_speechTimeout = None,
                 opt_minSpeechDuration = None, opt_maxSpeechDuration = None \<rparr>"

text \<open>A hook in conversational mode that is speaking its fiftieth reply.\<close>

definition fiftiethReply :: hook where
  "fiftiethReply =
     initialHook\<lparr> conv := initialState\<lparr> mode := CONVERSATIONAL, currentState := SPEAKING,
                                         isActive := True, canInterrupt := True,
                                         sessionId := Some (Generated 1), startTime := Some 1,
                                         lastActivity := Some 9, exchangeCount := 50 \<rparr> \<rparr>"

text \<open>
  The equations of the quantifier and of the replacement loop call themselves on the
  right-hand side; they are unfolded by hand in the proofs.
\<close>

declare rmatch.simps(4) [simp del]
declare replace_from.simps [simp del]

section \<open>Properties of the conversation reducer\<close>

text \<open>
  Claim C1. In the reducer, on every state whose mode is \<open>conversational\<close>, both
  \<open>FINISH_SPEAKING\<close> and \<open>RESET_ERROR\<close> set \<open>currentState\<close> to \<open>listening\<close>; on every state
  of any other mode both set it to \<open>idle\<close>. \<open>FINISH_SPEAKING\<close> also sets \<open>canInterrupt\<close> to
  false, and \<open>RESET_ERROR\<close> sets \<open>error\<close> to \<open>null\<close>.
\<close>

theorem finish_and_reset_target:
  "(mode s = CONVERSATIONAL \<longrightarrow>
      currentState (conversationReducer t s FINISH_SPEAKING) = LISTENING \<and>
      currentState (conversationReducer t s RESET_ERROR) = LISTENING) \<and>
   (mode s \<noteq> CONVERSATIONAL \<longrightarrow>
      currentState (conversationReducer t s FINISH_SPEAKING) = IDLE \<and>
      currentState (conversationReducer t s RESET_ERROR) = IDLE) \<and>
   canInterrupt (conversationReducer t s FINISH_SPEAKING) = False \<and>
   error (conversationReducer t s RESET_ERROR) = None"
  by simp

text \<open>
  The theorem at the speaking state of a conversation (first implication) and at the
  initial state, whose mode is \<open>idle\<close> (second implication).
\<close>

theorem finish_and_reset_target_witness:
  "mode (conv fiftiethReply) = CONVERSATIONAL \<and>
   currentState (conversationReducer 7 (conv fiftiethReply) FINISH_SPEAKING) = LISTENING \<and>
   currentState (conversationReducer 7 (conv fiftiethReply) RESET_ERROR) = LISTENING \<and>
   mode initialState \<noteq> CONVERSATIONAL \<and>
   currentState (conversationReducer 7 initialState FINISH_SPEAKING) = IDLE \<and>
   currentState (conversationReducer 7 initialState RESET_ERROR) = IDLE"
  using finish_and_reset_target [of "conv fiftiethReply" 7]
    finish_and_reset_target [of initialState 7]
  by (simp add: initialState_def fiftiethReply_def)

text \<open>
  Claim C5. When \<open>maxExchanges > 0\<close> and \<open>exchangeCount \<ge> maxExchanges\<close>, \<open>startSpeaking\<close>
  ends the conversation: the reducer state is the result of \<open>END_CONVERSATION\<close>, with mode
  and \<open>currentState\<close> idle, \<open>isActive\<close> false and \<open>sessionId\<close> null, so the speaking state
  is not entered. Otherwise the reducer state is the result of \<open>START_SPEAKING\<close>:
  \<open>currentState\<close> is speaking, \<open>canInterrupt\<close> is true and \<open>exchangeCount\<close> has grown by
  exactly one.
\<close>

theorem startSpeaking_cutoff:
  "(maxExchanges cfg > 0 \<and> exchangeCount (conv h) \<ge> maxExchanges cfg \<longrightarrow>
      conv (startSpeaking cfg t h) = conversationReducer t (conv h) END_CONVERSATION \<and>
      mode (conv (startSpeaking cfg t h)) = MODE_IDLE \<and>
      currentState (conv (startSpeaking cfg t h)) = IDLE \<and>
      isActive (conv (startSpeaking cfg t h)) = False \<and>
      sessionId (conv (startSpeaking cfg t h)) = None) \<and>
   (\<not> (maxExchanges cfg > 0 \<and> exchangeCount (conv h) \<ge> maxExchanges cfg) \<longrightarrow>
      conv (startSpeaking cfg t h) = conversationReducer t (conv h) START_SPEAKING \<and>
      currentState (conv (startSpeaking cfg t h)) = SPEAKING \<and>
      canInterrupt (conv (startSpeaking cfg t h)) = True \<and>
      exchangeCount (conv (startSpeaking cfg t h)) = exchangeCount (conv h) + 1)"
  by (simp add: startSpeaking_def endConversation_def dispatch_def)

text \<open>
  With the default limit of 50: after fifty replies the call ends the conversation, and on
  the fresh hook it starts the first reply.
\<close>

theorem startSpeaking_cutoff_witness:
  "maxExchanges (mkConfig noOptions) = 50 \<and>
   exchangeCount (conv fiftiethReply) = 50 \<and>
   currentState (conv (startSpeaking
      (mkConfig noOptions) 10 fiftiethReply)) = IDLE \<and>
   sessionId (conv (startSpeaking
      (mkConfig noOptions) 10 fiftiethReply)) = None \<and>
   exchangeCount (conv initialHook) = 0 \<and>
   currentState (conv (startSpeaking
      (mkConfig noOptions) 10 initialHook)) = SPEAKING \<and>
   exchangeCount (conv (startSpeaking
      (mkConfig noOptions) 10 initialHook)) = 1"
  using startSpeaking_cutoff
      [of "mkConfig noOptions" fiftiethReply 10]
    startSpeaking_cutoff
      [of "mkConfig noOptions" initialHook 10]
  by (simp add: mkConfig_def noOptions_def fiftiethReply_def initialHook_def initialState_def)

text \<open>
  Claim C6. Where \<open>canInterrupt\<close> is false, \<open>interruptSpeaking\<close> changes nothing (neither
  the reducer state nor the timers of the hook). Where it is true, the reducer state is
  the result of \<open>INTERRUPT_SPEAKING\<close>: \<open>currentState\<close> is interrupted, \<open>canInterrupt\<close> is
  false, and \<open>mode\<close>, \<open>isActive\<close>, \<open>sessionId\<close>, \<open>startTime\<close>, \<open>exchangeCount\<close>, \<open>error\<close>
  and \<open>metadata\<close> are as before.
\<close>

theorem interruptSpeaking_frame:
  "(\<not> canInterrupt (conv h) \<longrightarrow> interruptSpeaking cfg t h = h) \<and>
   (canInterrupt (conv h) \<longrightarrow>
      conv (interruptSpeaking cfg t h) = conversationReducer t (conv h) INTERRUPT_SPEAKING \<and>
      currentState (conv (interruptSpeaking cfg t h)) = INTERRUPTED \<and>
      canInterrupt (conv (interruptSpeaking cfg t h)) = False \<and>
      mode (conv (interruptSpeaking cfg t h)) = mode (conv h) \<and>
      isActive (conv (interruptSpeaking cfg t h)) = isActive (conv h) \<and>
      sessionId (conv (interruptSpeaking cfg t h)) = sessionId (conv h) \<and>
      startTime (conv (interruptSpeaking cfg t h)) = startTime (conv h) \<and>
      exchangeCount (conv (interruptSpeaking cfg t h)) = exchangeCount (conv h) \<and>
      error (conv (interruptSpeaking cfg t h)) = error (conv h) \<and>
      metadata (conv (interruptSpeaking cfg t h)) = metadata (conv h))"
  by (simp add: interruptSpeaking_def dispatch_def Let_def)

text \<open>
  On the fresh hook, which cannot be interrupted, and on the hook that is speaking.
\<close>

theorem interruptSpeaking_frame_witness:
  "\<not> canInterrupt (conv initialHook) \<and>
   interruptSpeaking (mkConfig noOptions) 10 initialHook = initialHook \<and>
   canInterrupt (conv fiftiethReply) \<and>
   currentState (conv (interruptSpeaking (mkConfig noOptions) 10 fiftiethReply)) = INTERRUPTED \<and>
   canInterrupt (conv (interruptSpeaking (mkConfig noOptions) 10 fiftiethReply)) = False \<and>
   exchangeCount (conv (interruptSpeaking (mkConfig noOptions) 10 fiftiethReply)) = 50"
  using interruptSpeaking_frame [of initialHook "mkConfig noOptions" 10]
    interruptSpeaking_frame [of fiftiethReply "mkConfig noOptions" 10]
  by (simp add: fiftiethReply_def initialHook_def initialState_def)

text \<open>
  Claim C7. \<open>onSpeechDetected\<close> dispatches \<open>SPEECH_DETECTED\<close> only when \<open>currentState\<close> is
  listening, and \<open>currentState\<close> is then processing; in every other state (idle,
  processing, speaking, interrupted, error) the call leaves the state as it is.
\<close>

theorem onSpeechDetected_guard:
  "(currentState (conv h) = LISTENING \<longrightarrow>
      conv (onSpeechDetected t h) = conversationReducer t (conv h) SPEECH_DETECTED \<and>
      currentState (conv (onSpeechDetected t h)) = PROCESSING) \<and>
   (currentState (conv h) \<noteq> LISTENING \<longrightarrow> onSpeechDetected t h = h)"
  by (simp add: onSpeechDetected_def dispatch_def)

text \<open>On the hook that listens after \<open>startListening\<close>, and on the hook that is speaking.\<close>

theorem onSpeechDetected_guard_witness:
  "currentState (conv (startListening 5 initialHook)) = LISTENING \<and>
   currentState (conv (onSpeechDetected 6 (startListening 5 initialHook))) = PROCESSING \<and>
   currentState (conv fiftiethReply) \<noteq> LISTENING \<and>
   onSpeechDetected 6 fiftiethReply = fiftiethReply"
  using onSpeechDetected_guard [of "startListening 5 initialHook" 6]
    onSpeechDetected_guard [of fiftiethReply 6]
  by (simp add: startListening_def dispatch_def fiftiethReply_def initialHook_def initialState_def)

text \<open>
  Claim C10, as stated: after any run of reducer actions from the initial state in which
  \<open>SPEECH_DETECTED\<close> is applied only while listening, \<open>canInterrupt\<close> is true exactly when
  \<open>currentState\<close> is speaking. One direction fails: \<open>RESET_ERROR\<close> and
  \<open>START_CONVERSATION\<close> set \<open>currentState\<close> without touching \<open>canInterrupt\<close>, so either of
  them applied while speaking leaves the state listening (or idle) with \<open>canInterrupt\<close>
  still true.
\<close>

theorem interrupt_flag_outlives_speaking:
  "runActions speechGuard [(1, START_SPEAKING), (2, RESET_ERROR)] initialState \<noteq> None \<and>
   \<not> interruptInvariant
        (the (runActions speechGuard [(1, START_SPEAKING), (2, RESET_ERROR)] initialState)) \<and>
   runActions speechGuard [(1, START_SPEAKING), (2, START_CONVERSATION None None)] initialState
      \<noteq> None \<and>
   \<not> interruptInvariant
        (the (runActions speechGuard [(1, START_SPEAKING), (2, START_CONVERSATION None None)]
                initialState))"
  by (simp add: speechGuard_def initialState_def interruptInvariant_def)

text \<open>
  The direction that holds under no guard at all: every action that makes the state
  speaking sets the flag, and no action clears the flag while leaving the state speaking.
\<close>

lemma speaking_flag_step:
  "(currentState s = SPEAKING \<longrightarrow> canInterrupt s) \<Longrightarrow>
   currentState (conversationReducer t s a) = SPEAKING \<longrightarrow>
   canInterrupt (conversationReducer t s a)"
  by (cases a) (auto split: if_splits)

lemma speaking_flag_run:
  "(currentState s0 = SPEAKING \<longrightarrow> canInterrupt s0) \<Longrightarrow>
   runActions g acts s0 = Some s \<Longrightarrow> currentState s = SPEAKING \<longrightarrow> canInterrupt s"
proof (induction acts arbitrary: s0)
  case Nil
  then show ?case by simp
next
  case (Cons p acts)
  obtain t a where p: "p = (t, a)" by (cases p)
  from Cons.prems(2) p
  have r: "runActions g acts (conversationReducer t s0 a) = Some s"
    by (auto split: if_splits)
  from Cons.IH [OF speaking_flag_step [OF Cons.prems(1)] r] show ?case .
qed

text \<open>
  The other direction under the stronger guard, and why the guard cannot be dropped: from
  a state where the flag follows the speaking state, an action that the guard of
  \<open>onSpeechDetected\<close> allows and the stronger guard forbids always breaks the equivalence.
\<close>

lemma strictGuard_step:
  "interruptInvariant s \<Longrightarrow> strictGuard s a \<Longrightarrow> interruptInvariant (conversationReducer t s a)"
  by (cases a) (auto simp: interruptInvariant_def)

lemma strictGuard_run:
  "interruptInvariant s0 \<Longrightarrow> runActions strictGuard acts s0 = Some s \<Longrightarrow> interruptInvariant s"
proof (induction acts arbitrary: s0)
  case Nil
  then show ?case by simp
next
  case (Cons p acts)
  obtain t a where p: "p = (t, a)" by (cases p)
  from Cons.prems(2) p have g: "strictGuard s0 a"
    and r: "runActions strictGuard acts (conversationReducer t s0 a) = Some s"
    by (auto split: if_splits)
  from Cons.IH [OF strictGuard_step [OF Cons.prems(1) g] r] show ?case .
qed

lemma strictGuard_needed:
  "interruptInvariant s \<Longrightarrow> speechGuard s a \<Longrightarrow> \<not> strictGuard s a \<Longrightarrow>
   \<not> interruptInvariant (conversationReducer t s a)"
  by (cases a) (auto simp: interruptInvariant_def speechGuard_def)

text \<open>
  Claim C10, amended: after any run of reducer actions from the initial state, whatever
  the states the actions are applied in, \<open>canInterrupt\<close> is true whenever \<open>currentState\<close>
  is speaking. After any run in which \<open>SPEECH_DETECTED\<close> is applied only while listening,
  and \<open>START_CONVERSATION\<close> and \<open>RESET_ERROR\<close> only while not speaking, \<open>canInterrupt\<close> is
  true exactly when \<open>currentState\<close> is speaking.
\<close>

theorem interrupt_flag_follows_speaking:
  "(runActions g acts initialState = Some s \<longrightarrow>
      (currentState s = SPEAKING \<longrightarrow> canInterrupt s)) \<and>
   (runActions strictGuard acts initialState = Some s \<longrightarrow>
      canInterrupt s = (currentState s = SPEAKING))"
proof -
  have init: "interruptInvariant initialState"
    by (simp add: interruptInvariant_def initialState_def)
  then have init': "currentState initialState = SPEAKING \<longrightarrow> canInterrupt initialState"
    by (simp add: interruptInvariant_def)
  have a: "runActions g acts initialState = Some s \<longrightarrow>
             (currentState s = SPEAKING \<longrightarrow> canInterrupt s)"
    using speaking_flag_run [OF init'] by blast
  have b: "runActions strictGuard acts initialState = Some s \<longrightarrow>
             canInterrupt s = (currentState s = SPEAKING)"
    using strictGuard_run [OF init] by (auto simp: interruptInvariant_def)
  from a b show ?thesis ..
qed

text \<open>
  A whole exchange under the stronger guard: start, speech, processing, reply. The run
  ends speaking, with the flag set.
\<close>

theorem interrupt_flag_follows_speaking_witness:
  "runActions strictGuard
      [(1, START_CONVERSATION None None), (2, SPEECH_DETECTED), (3, START_PROCESSING),
       (4, START_SPEAKING)] initialState
     = Some (conversationReducer 4 (conversationReducer 3 (conversationReducer 2
              (conversationReducer 1 initialState (START_CONVERSATION None None))
              SPEECH_DETECTED) START_PROCESSING) START_SPEAKING) \<and>
   currentState (conversationReducer 4 (conversationReducer 3 (conversationReducer 2
              (conversationReducer 1 initialState (START_CONVERSATION None None))
              SPEECH_DETECTED) START_PROCESSING) START_SPEAKING) = SPEAKING \<and>
   canInterrupt (conversationReducer 4 (conversationReducer 3 (conversationReducer 2
              (conversationReducer 1 initialState (START_CONVERSATION None None))
              SPEECH_DETECTED) START_PROCESSING) START_SPEAKING)"
proof -
  let ?acts = "[(1, START_CONVERSATION None None), (2, SPEECH_DETECTED), (3, START_PROCESSING),
                (4, START_SPEAKING)]"
  let ?s = "conversationReducer 4 (conversationReducer 3 (conversationReducer 2
              (conversationReducer 1 initialState (START_CONVERSATION None None))
              SPEECH_DETECTED) START_PROCESSING) START_SPEAKING"
  have run: "runActions strictGuard ?acts initialState = Some ?s"
    by (simp add: initialState_def)
  have sp: "currentState ?s = SPEAKING" by simp
  from interrupt_flag_follows_speaking [of strictGuard ?acts ?s] run sp
  show ?thesis by blast
qed

section \<open>Properties of the voice activity detection\<close>

lemma foldl_unat_sum:
  "foldl (\<lambda>acc b. acc + unat b) a xs = a + sum_list (map unat xs)" for xs :: "8 word list"
  by (induction xs arbitrary: a) auto

text \<open>Rounding keeps the sign: a number that is not negative stays so.\<close>

lemma pow2_pos: "0 < pow2 e"
  by (simp add: pow2_def)

lemma roundTiesToEven_nonneg: "0 \<le> x \<Longrightarrow> 0 \<le> roundTiesToEven x"
  by (simp add: roundTiesToEven_def Let_def)

lemma fl_nonneg: "0 \<le> x \<Longrightarrow> 0 \<le> fl x"
proof (cases "x = 0")
  case True
  then show ?thesis by (simp add: fl_def)
next
  case False
  assume "0 \<le> x"
  with False have pos: "0 < x" by simp
  let ?sp = "pow2 (max (exponent \<bar>x\<bar>) (- 1022) - 52)"
  have "0 \<le> \<bar>x\<bar> / ?sp" using pow2_pos [of "max (exponent \<bar>x\<bar>) (- 1022) - 52"] by simp
  then have "0 \<le> roundTiesToEven (\<bar>x\<bar> / ?sp)" by (rule roundTiesToEven_nonneg)
  then have "(0::rat) \<le> of_int (roundTiesToEven (\<bar>x\<bar> / ?sp)) * ?sp"
    using pow2_pos [of "max (exponent \<bar>x\<bar>) (- 1022) - 52"] by simp
  with pos show ?thesis by (simp add: fl_def Let_def)
qed

text \<open>
  \<open>exponent\<close> is the binary exponent, and \<open>fl x\<close>, a multiple of the spacing at \<open>x\<close> by
  its definition, is within half a spacing of \<open>x\<close>; a multiple of the spacing is not moved.
\<close>

lemma pow2_nonneg_exp: "0 \<le> e \<Longrightarrow> pow2 e = 2 ^ nat e"
  by (simp add: pow2_def)

lemma pow2_neg_exp: "0 \<le> k \<Longrightarrow> pow2 (- k) = 1 / 2 ^ nat k"
  by (cases "k = 0") (simp_all add: pow2_def)

lemma exponent_bounds:
  assumes "0 < x"
  shows "pow2 (exponent x) \<le> x \<and> x < pow2 (exponent x + 1)"
proof (cases "1 \<le> x")
  case True
  let ?n = "\<lfloor>x\<rfloor>"
  let ?b = "bitlen ?n"
  have n: "0 < ?n" using True by simp
  from bitlen_bounds [OF n]
  have lo: "2 ^ nat (?b - 1) \<le> ?n" and hi: "?n < 2 ^ nat ?b" by simp_all
  have b1: "1 \<le> ?b" using n by (simp add: bitlen_alt_def)
  have "(of_int (2 ^ nat (?b - 1)) :: rat) \<le> of_int ?n" using lo by (simp only: of_int_le_iff)
  then have "(2::rat) ^ nat (?b - 1) \<le> of_int ?n" by (simp only: of_int_power of_int_numeral)
  moreover have "of_int ?n \<le> x" by (rule of_int_floor_le)
  ultimately have l: "(2::rat) ^ nat (?b - 1) \<le> x" by (rule order_trans)
  have "?n + 1 \<le> 2 ^ nat ?b" using hi by simp
  then have "(of_int (?n + 1) :: rat) \<le> of_int (2 ^ nat ?b)" by (simp only: of_int_le_iff)
  then have "(of_int (?n + 1) :: rat) \<le> 2 ^ nat ?b" by (simp only: of_int_power of_int_numeral)
  moreover have "x < of_int (?n + 1)" by linarith
  ultimately have h: "x < (2::rat) ^ nat ?b" by (rule less_le_trans [rotated])
  show ?thesis using True l h b1
    by (simp add: exponent_def pow2_nonneg_exp)
next
  case False
  let ?y = "1 / x"
  let ?c = "\<lceil>?y\<rceil>"
  let ?k = "bitlen (?c - 1)"
  from False assms have x1: "x < 1" by simp
  then have y1: "1 < ?y" using assms by simp
  then have c2: "2 \<le> ?c" by linarith
  then have pos: "0 < ?c - 1" by simp
  from bitlen_bounds [OF pos]
  have lo: "2 ^ nat (?k - 1) \<le> ?c - 1" and hi: "?c - 1 < 2 ^ nat ?k" by simp_all
  have k1: "1 \<le> ?k" using pos by (simp add: bitlen_alt_def)
  have "?c \<le> 2 ^ nat ?k" using hi by simp
  then have "(of_int ?c :: rat) \<le> of_int (2 ^ nat ?k)" by (simp only: of_int_le_iff)
  then have "(of_int ?c :: rat) \<le> 2 ^ nat ?k" by (simp only: of_int_power of_int_numeral)
  moreover have "?y \<le> of_int ?c" by (rule le_of_int_ceiling)
  ultimately have yk: "?y \<le> (2::rat) ^ nat ?k" by (rule order_trans [rotated])
  have "(of_int (2 ^ nat (?k - 1)) :: rat) \<le> of_int (?c - 1)" using lo by (simp only: of_int_le_iff)
  then have "(2::rat) ^ nat (?k - 1) \<le> of_int (?c - 1)" by (simp only: of_int_power of_int_numeral)
  moreover have "of_int (?c - 1) < ?y" by linarith
  ultimately have ky: "(2::rat) ^ nat (?k - 1) < ?y" by (rule le_less_trans)
  have l: "1 / 2 ^ nat ?k \<le> x"
    using yk assms by (simp add: field_simps)
  have h: "x < 1 / 2 ^ nat (?k - 1)"
    using ky assms by (simp add: field_simps)
  have e: "exponent x = - ?k" using False by (simp add: exponent_def)
  have p1: "pow2 (- ?k) = 1 / 2 ^ nat ?k" using k1 by (simp add: pow2_neg_exp)
  have p2: "pow2 (- ?k + 1) = 1 / 2 ^ nat (?k - 1)"
    using pow2_neg_exp [of "?k - 1"] k1 by simp
  show ?thesis unfolding e p1 p2 using l h by simp
qed

lemma roundTiesToEven_near: "\<bar>of_int (roundTiesToEven y) - y\<bar> \<le> 1 / 2"
proof -
  have "of_int \<lfloor>y\<rfloor> \<le> y" "y < of_int \<lfloor>y\<rfloor> + 1" by linarith+
  then show ?thesis
    by (auto simp: roundTiesToEven_def Let_def abs_le_iff)
qed

lemma roundTiesToEven_of_int: "roundTiesToEven (of_int n) = n"
  by (simp add: roundTiesToEven_def)

lemma scaled_near:
  fixes r a sp :: rat
  assumes "0 < sp" and "\<bar>r - a / sp\<bar> \<le> 1 / 2"
  shows "\<bar>r * sp - a\<bar> \<le> sp / 2"
proof -
  have "r * sp - a = (r - a / sp) * sp" using assms(1) by (simp add: left_diff_distrib)
  then have "\<bar>r * sp - a\<bar> = \<bar>r - a / sp\<bar> * sp" using assms(1) by (simp add: abs_mult)
  also have "\<dots> \<le> 1 / 2 * sp" using assms by (simp only: mult_le_cancel_right_pos)
  finally show ?thesis by simp
qed

lemma fl_pos_eq:
  "0 < x \<Longrightarrow>
   fl x = of_int (roundTiesToEven (x / pow2 (max (exponent x) (- 1022) - 52)))
            * pow2 (max (exponent x) (- 1022) - 52)"
  by (simp add: fl_def Let_def)

lemma fl_neg: "fl (- x) = - fl x"
  by (simp add: fl_def Let_def)

lemma fl_near_pos:
  assumes "0 < x"
  shows "\<bar>fl x - x\<bar> \<le> pow2 (max (exponent x) (- 1022) - 52) / 2"
  unfolding fl_pos_eq [OF assms]
  by (rule scaled_near [OF pow2_pos roundTiesToEven_near])

lemma fl_near: "\<bar>fl x - x\<bar> \<le> pow2 (max (exponent \<bar>x\<bar>) (- 1022) - 52) / 2"
proof -
  consider "x = 0" | "0 < x" | "x < 0" by linarith
  then show ?thesis
  proof cases
    case 1
    then show ?thesis using pow2_pos [of "max (exponent 0) (- 1022) - 52"] by (simp add: fl_def)
  next
    case 2
    then show ?thesis using fl_near_pos [OF 2] by simp
  next
    case 3
    then have p: "0 < - x" by simp
    have "\<bar>fl x - x\<bar> = \<bar>fl (- x) - (- x)\<bar>" by (simp add: fl_neg)
    with fl_near_pos [OF p] 3 show ?thesis by simp
  qed
qed

lemma specVolume_range: "bins \<noteq> [] \<Longrightarrow> 0 \<le> specVolume bins \<and> specVolume bins \<le> 100"
proof -
  assume "bins \<noteq> []"
  have "0 \<le> mean bins" unfolding mean_def fdiv_def by (rule fl_nonneg) simp
  then have "0 \<le> fdiv (mean bins) 255" unfolding fdiv_def by (intro fl_nonneg) simp
  then have "0 \<le> fmul (fdiv (mean bins) 255) 100" unfolding fmul_def by (intro fl_nonneg) simp
  then show ?thesis by (simp add: specVolume_def)
qed

lemma calculateVolume_specVolume:
  "bins \<noteq> [] \<Longrightarrow> calculateVolume bins = Some (specVolume bins)"
  by (simp add: calculateVolume_def specVolume_def mean_def foldl_unat_sum Let_def)





lemma half_arith: "fmul (fdiv (fdiv 2040 16) 255) 100 = 50"
  by code_simp

lemma edge_arith: "fmul (fdiv (fdiv 2244 16) 255) 100 = 55 + 1 / 2 ^ 47"
  by code_simp





text \<open>
  Claim C4. A polled frame (its data array is not empty) is classified as speech exactly
  when its computed volume is strictly greater than \<open>silenceThreshold\<close>. The computed
  volume is what \<open>calculateVolume\<close> returns: the mean of the frequency-bin bytes, divided by
  255, times 100, capped at 100, in the arithmetic of numbers. It lies in the closed
  interval from 0 to 100; \<open>analyzeAudio\<close> takes the speech branch when it exceeds the
  threshold and the silence branch otherwise, a computed volume equal to the threshold
  included.
\<close>

theorem volume_classification:
  assumes "dataArray f \<noteq> []"
  shows "calculateVolume (dataArray f) = Some (specVolume (dataArray f)) \<and>
         0 \<le> specVolume (dataArray f) \<and> specVolume (dataArray f) \<le> 100 \<and>
         (isSpeechDetected cfg (dataArray f) \<longleftrightarrow> specVolume (dataArray f) > silenceThreshold cfg) \<and>
         (specVolume (dataArray f) = silenceThreshold cfg \<longrightarrow> \<not> isSpeechDetected cfg (dataArray f)) \<and>
         (vad_isActive s \<longrightarrow>
            analyzeAudio cfg f s =
              (let (s', fired) =
                     (if specVolume (dataArray f) > silenceThreshold cfg
                      then handleSpeechDetected cfg (frameTime f) (endTime f) s
                      else handleSilenceDetected cfg (frameTime f) (endTime f) s)
               in (s', OnVolumeChange (Some (specVolume (dataArray f))) # fired)))"
proof -
  have v: "calculateVolume (dataArray f) = Some (specVolume (dataArray f))"
    using assms by (rule calculateVolume_specVolume)
  have r: "0 \<le> specVolume (dataArray f) \<and> specVolume (dataArray f) \<le> 100"
    using assms by (rule specVolume_range)
  have c: "isSpeechDetected cfg (dataArray f) \<longleftrightarrow> specVolume (dataArray f) > silenceThreshold cfg"
    by (simp add: isSpeechDetected_def v)
  show ?thesis using v r c by (simp add: analyzeAudio_def)
qed

text \<open>
  A frame with eight bins at 255 and eight at 0 has the computed volume 50; with the
  threshold at 50 it is silence, and on the started detector nothing but the volume
  callback fires. A frame with eight bins at 255, one at 204 and seven at 0 has the
  computed volume 55.00000000000001; with the threshold at 55 it is speech.
\<close>

theorem volume_classification_witness:
  "dataArray (halfFrame 1000) \<noteq> [] \<and>
   specVolume (dataArray (halfFrame 1000)) = silenceThreshold thresholdFifty \<and>
   vad_isActive (start newVad) \<and>
   analyzeAudio thresholdFifty (halfFrame 1000) (start newVad)
     = (start newVad, [OnVolumeChange (Some 50)]) \<and>
   dataArray (edgeFrame 1000) \<noteq> [] \<and>
   calculateVolume (dataArray (edgeFrame 1000)) = Some (55 + 1 / 2 ^ 47) \<and>
   isSpeechDetected thresholdFiftyFive (dataArray (edgeFrame 1000))"
proof -
  have ne: "dataArray (halfFrame 1000) \<noteq> []" by (simp add: halfFrame_def)
  have sv: "specVolume (dataArray (halfFrame 1000)) = 50"
    by (simp add: specVolume_def mean_def halfFrame_def half_arith)
  have th: "silenceThreshold thresholdFifty = 50"
    by (simp add: thresholdFifty_def vadConfig_def)
  have act: "vad_isActive (start newVad)" by (simp add: start_def)
  from volume_classification [OF ne, of thresholdFifty "start newVad"] ne sv th act
  have half: "dataArray (halfFrame 1000) \<noteq> [] \<and>
     specVolume (dataArray (halfFrame 1000)) = silenceThreshold thresholdFifty \<and>
     vad_isActive (start newVad) \<and>
     analyzeAudio thresholdFifty (halfFrame 1000) (start newVad)
       = (start newVad, [OnVolumeChange (Some 50)])"
    by (simp add: handleSilenceDetected_def start_def newVad_def)
  have ne': "dataArray (edgeFrame 1000) \<noteq> []" by (simp add: edgeFrame_def)
  have sv': "specVolume (dataArray (edgeFrame 1000)) = 55 + 1 / 2 ^ 47"
    by (simp add: specVolume_def mean_def edgeFrame_def edge_arith)
  have th': "silenceThreshold thresholdFiftyFive = 55"
    by (simp add: thresholdFiftyFive_def vadConfig_def)
  from volume_classification [OF ne', of thresholdFiftyFive] sv' th'
  have edge: "calculateVolume (dataArray (edgeFrame 1000)) = Some (55 + 1 / 2 ^ 47) \<and>
     isSpeechDetected thresholdFiftyFive (dataArray (edgeFrame 1000))"
    by simp
  from half ne' edge show ?thesis by simp
qed

text \<open>
  The computed volume is not always the exact value of the formula: for the second frame
  the mean is 140.25 and the exact value is 55, while the two roundings of the division by
  255 and of the multiplication by 100 give the next number above 55. It is the computed
  volume that the code compares with the threshold.
\<close>

lemma rounding_moves_the_volume:
  "exactVolume (dataArray (edgeFrame t)) = 55"
  "calculateVolume (dataArray (edgeFrame t)) = Some (55 + 1 / 2 ^ 47)"
  by (simp_all add: exactVolume_def calculateVolume_def edgeFrame_def Let_def edge_arith)







section \<open>Properties of the text processing\<close>

subsection \<open>The matcher\<close>

text \<open>The equation of the quantifier, unfolded once, on the empty and on a non-empty input.\<close>

lemma rmatch_Rep_Nil:
  "rmatch (Rep greedy mn mx a # r) prev opened cap [] =
     (if mn = 0 then rmatch r prev opened cap [] else None)"
  by (subst rmatch.simps) (simp add: Let_def split: option.splits)

lemma rmatch_Rep_Cons:
  "rmatch (Rep greedy mn mx a # r) prev opened cap (c # cs) =
     (let stop = (if mn = 0 then rmatch r prev opened cap (c # cs) else None);
          more = (if mx \<noteq> Some 0 \<and> amatch a c
                  then rmatch (Rep greedy (mn - 1) (map_option (\<lambda>m. m - 1) mx) a # r)
                         (Some c) opened cap cs
                  else None)
      in if greedy
         then (case more of Some m \<Rightarrow> Some m | None \<Rightarrow> stop)
         else (case stop of Some m \<Rightarrow> Some m | None \<Rightarrow> more))"
  by (subst rmatch.simps) simp

text \<open>
  A pattern with an item that needs the code unit \<open>c\<close> matches nowhere in a text without
  \<open>c\<close>.
\<close>

lemma rmatch_needs:
  "c \<notin> set s \<Longrightarrow> list_ex (needs c) re \<Longrightarrow> rmatch re prev opened cap s = None"
proof (induction re prev opened cap s rule: rmatch.induct)
  case (4 greedy mn mx a r prev opened cap s)
  show ?case
  proof (cases "needs c (Rep greedy mn mx a)")
    case True
    then obtain x where a: "a = Lit x" "x = c" "mn > 0" by (cases a) auto
    with "4.prems"(1) show ?thesis
      by (cases s) (auto simp: rmatch_Rep_Nil rmatch_Rep_Cons Let_def)
  next
    case False
    with "4.prems"(2) have r: "list_ex (needs c) r" by simp
    have stop: "mn = 0 \<Longrightarrow> rmatch r prev opened cap s = None"
      using "4.IH"(1) "4.prems"(1) r by simp
    have more: "\<And>x xs. s = x # xs \<Longrightarrow> mx \<noteq> Some 0 \<and> amatch a x \<Longrightarrow>
        rmatch (Rep greedy (mn - 1) (map_option (\<lambda>m. m - 1) mx) a # r) (Some x) opened cap xs = None"
    proof -
      fix x xs assume s: "s = x # xs" and m: "mx \<noteq> Some 0 \<and> amatch a x"
      have "list_ex (needs c) (Rep greedy (mn - 1) (map_option (\<lambda>m. m - 1) mx) a # r)"
        using r by simp
      moreover have "c \<notin> set xs" using "4.prems"(1) s by simp
      ultimately show "rmatch (Rep greedy (mn - 1) (map_option (\<lambda>m. m - 1) mx) a # r) (Some x) opened cap xs = None"
        using "4.IH"(2) [OF refl s m] by blast
    qed
    show ?thesis
    proof (cases s)
      case Nil
      then show ?thesis using stop by (simp add: rmatch_Rep_Nil)
    next
      case (Cons x xs)
      then show ?thesis using stop more [OF Cons]
        by (auto simp: rmatch_Rep_Cons Let_def)
    qed
  qed
next
  case (3 a r prev opened cap x xs)
  then show ?case by (cases a) (auto split: if_splits)
qed (auto split: if_splits)

lemma test_from_needs:
  "c \<notin> set s \<Longrightarrow> list_ex (needs c) re \<Longrightarrow> \<not> test_from re prev s"
  by (induction s arbitrary: prev) (auto simp: rmatch_needs)

subsection \<open>The last three steps of the cleaning\<close>

text \<open>Deleting the symbols is a filter.\<close>

lemma replace_symbols:
  "replace_from re_symbols (Text []) prev s = filter (\<lambda>c. c \<notin> set markdown_symbols) s"
  by (induction s arbitrary: prev) (auto simp: re_symbols_def replace_from.simps)

text \<open>
  \<^verbatim>\<open>\s+\<close> takes the whole run of white space at the position, so the replacement by
  one blank leaves no two white-space code units in a row and adds no other code unit.
\<close>

lemma rmatch_spaces:
  "rmatch [Rep True mn None Space] prev opened cap s =
     (if mn \<le> length (takeWhile is_space s) then Some (cap, dropWhile is_space s) else None)"
proof (induction s arbitrary: mn prev)
  case Nil
  show ?case by (simp add: rmatch_Rep_Nil)
next
  case (Cons c cs)
  show ?case
  proof (cases "is_space c")
    case True
    then show ?thesis using Cons [of "mn - 1" "Some c"]
      by (auto simp: rmatch_Rep_Cons Let_def)
  next
    case False
    then show ?thesis by (auto simp: rmatch_Rep_Cons Let_def)
  qed
qed

lemma replace_whitespace_Nil: "replace_from re_whitespace rp prev [] = []"
  by (simp add: re_whitespace_def rmatch_spaces replace_from.simps)

lemma replace_whitespace_Cons:
  "replace_from re_whitespace (Text [blank]) prev (c # cs) =
     (if is_space c
      then blank # replace_from re_whitespace (Text [blank])
                     (Some ((c # cs) ! (length cs - length (dropWhile is_space cs))))
                     (dropWhile is_space cs)
      else c # replace_from re_whitespace (Text [blank]) (Some c) cs)"
proof -
  have "length (dropWhile is_space cs) \<le> length cs" by (rule length_dropWhile_le)
  then show ?thesis unfolding re_whitespace_def
    by (simp add: rmatch_spaces replace_from.simps del: rmatch.simps)
qed

lemma no_space_run_Cons: "\<not> is_space c \<Longrightarrow> no_space_run (c # r) = no_space_run r"
  by (cases r) auto

lemma blank_space: "is_space blank"
  by (simp add: is_space_def blank_def)

lemma replace_whitespace_run:
  "no_space_run (replace_from re_whitespace (Text [blank]) prev s)"
proof (induction "length s" arbitrary: s prev rule: less_induct)
  case less
  show ?case
  proof (cases s)
    case Nil
    then show ?thesis by (simp add: replace_whitespace_Nil)
  next
    case (Cons c cs)
    show ?thesis
    proof (cases "is_space c")
      case False
      have "length cs < length s" using Cons by simp
      from less [OF this] show ?thesis
        using False Cons by (simp add: replace_whitespace_Cons no_space_run_Cons)
    next
      case True
      let ?rest = "dropWhile is_space cs"
      have len: "length ?rest < length s"
        using Cons length_dropWhile_le [of is_space cs] by simp
      let ?p = "Some ((c # cs) ! (length cs - length ?rest))"
      have eq: "replace_from re_whitespace (Text [blank]) prev s =
                  blank # replace_from re_whitespace (Text [blank]) ?p ?rest"
        using True Cons by (simp add: replace_whitespace_Cons)
      show ?thesis
      proof (cases ?rest)
        case Nil
        have "replace_from re_whitespace (Text [blank]) prev s = [blank]"
          by (simp only: eq Nil replace_whitespace_Nil)
        then show ?thesis by simp
      next
        case (Cons d ds)
        have d: "\<not> is_space d" using hd_dropWhile [of is_space cs] Cons by auto
        have run: "no_space_run (replace_from re_whitespace (Text [blank]) ?p ?rest)"
          using less [OF len] .
        have "replace_from re_whitespace (Text [blank]) ?p (d # ds) =
                d # replace_from re_whitespace (Text [blank]) (Some d) ds"
          using d by (simp add: replace_whitespace_Cons)
        with run d show ?thesis by (simp only: eq Cons no_space_run.simps) simp
      qed
    qed
  qed
qed

lemma replace_whitespace_set:
  "set (replace_from re_whitespace (Text [blank]) prev s) \<subseteq> insert blank (set s)"
proof (induction "length s" arbitrary: s prev rule: less_induct)
  case less
  show ?case
  proof (cases s)
    case Nil
    then show ?thesis by (simp add: replace_whitespace_Nil)
  next
    case (Cons c cs)
    have l1: "length cs < length s" using Cons by simp
    have l2: "length (dropWhile is_space cs) < length s"
      using Cons length_dropWhile_le [of is_space cs] by simp
    have "set (dropWhile is_space cs) \<subseteq> set cs" by (auto dest: set_dropWhileD)
    then show ?thesis
      using less [OF l1, of "Some c"]
        less [OF l2, of "Some ((c # cs) ! (length cs - length (dropWhile is_space cs)))"] Cons
      by (auto simp: replace_whitespace_Cons)
  qed
qed

lemma no_space_run_append:
  "no_space_run (xs @ ys) \<Longrightarrow> no_space_run xs \<and> no_space_run ys"
proof (induction xs)
  case Nil
  then show ?case by simp
next
  case (Cons x xs)
  show ?case
  proof (cases xs)
    case Nil
    with Cons.prems show ?thesis by (cases ys) auto
  next
    case (Cons b r)
    with Cons.prems Cons.IH show ?thesis by simp
  qed
qed

lemma no_space_run_nth:
  "no_space_run s \<Longrightarrow> Suc i < length s \<Longrightarrow> \<not> (is_space (s ! i) \<and> is_space (s ! Suc i))"
proof (induction s arbitrary: i rule: no_space_run.induct)
  case (1 a b r)
  then show ?case by (cases i) auto
qed simp_all

text \<open>\<open>trim\<close> cuts a piece out of the text, with no white space at its ends.\<close>

lemma trim_parts: "\<exists>pre post. s = pre @ trim s @ post"
proof -
  let ?d = "dropWhile is_space s"
  have "s = takeWhile is_space s @ ?d" by simp
  moreover have "?d = trim s @ rev (takeWhile is_space (rev ?d))"
  proof -
    have "rev (takeWhile is_space (rev ?d) @ dropWhile is_space (rev ?d)) = ?d"
      by (simp only: takeWhile_dropWhile_id rev_rev_ident)
    then show ?thesis by (simp only: trim_def rev_append)
  qed
  ultimately show ?thesis by metis
qed

lemma trim_run: "no_space_run s \<Longrightarrow> no_space_run (trim s)"
  using trim_parts [of s] no_space_run_append by metis

lemma trim_set: "set (trim s) \<subseteq> set s"
  using trim_parts [of s] by (metis Un_iff set_append subsetI)

lemma trim_outer: "trim s \<noteq> [] \<Longrightarrow> \<not> is_space (hd (trim s)) \<and> \<not> is_space (last (trim s))"
proof -
  assume ne: "trim s \<noteq> []"
  let ?d = "dropWhile is_space s"
  let ?e = "dropWhile is_space (rev ?d)"
  have e: "?e \<noteq> []" using ne by (simp add: trim_def)
  have d: "?d \<noteq> []"
  proof
    assume "?d = []"
    then have "?e = []" by (simp only: rev.simps dropWhile.simps)
    with e show False ..
  qed
  have "last (trim s) = hd ?e" using e by (simp add: trim_def last_rev)
  moreover have "\<not> is_space (hd ?e)" using e hd_dropWhile by blast
  moreover have "hd (trim s) = last ?e" using e by (simp add: trim_def hd_rev)
  moreover have "last ?e = last (rev ?d)"
    using e by (metis takeWhile_dropWhile_id last_appendR)
  moreover have "last (rev ?d) = hd ?d" using d by (simp add: last_rev)
  moreover have "\<not> is_space (hd ?d)" using d hd_dropWhile by blast
  ultimately show ?thesis by simp
qed

subsection \<open>The cleaned text\<close>

lemma clean_not_text: "not_a_text v \<Longrightarrow> cleanMarkdownForSpeech v = []"
  by (simp add: cleanMarkdownForSpeech_def)

lemma clean_tail:
  "\<not> not_a_text v \<Longrightarrow>
   \<exists>x. cleanMarkdownForSpeech v =
          trim (replace re_whitespace (Text [blank]) (replace re_symbols (Text []) x))"
  by (simp add: cleanMarkdownForSpeech_def Let_def) blast

lemma clean_symbols: "c \<in> set (cleanMarkdownForSpeech v) \<Longrightarrow> c \<notin> set markdown_symbols"
proof (cases "not_a_text v")
  case True
  assume "c \<in> set (cleanMarkdownForSpeech v)"
  with True show ?thesis by (simp add: clean_not_text)
next
  case False
  assume c: "c \<in> set (cleanMarkdownForSpeech v)"
  from clean_tail [OF False] obtain x where
    x: "cleanMarkdownForSpeech v =
          trim (replace re_whitespace (Text [blank]) (replace re_symbols (Text []) x))" ..
  let ?y = "replace re_symbols (Text []) x"
  have "c \<in> set (replace re_whitespace (Text [blank]) ?y)"
    using c x trim_set by auto
  then have "c = blank \<or> c \<in> set ?y"
    using replace_whitespace_set [of None ?y] by (auto simp: replace_def)
  moreover have "blank \<notin> set markdown_symbols"
    by (simp add: markdown_symbols_def blank_def hash_def star_def underscore_def
        backtick_def tilde_def pipe_def)
  moreover have "c \<in> set ?y \<Longrightarrow> c \<notin> set markdown_symbols"
    by (simp add: replace_def replace_symbols)
  ultimately show ?thesis by blast
qed

lemma clean_run: "no_space_run (cleanMarkdownForSpeech v)"
proof (cases "not_a_text v")
  case True
  then show ?thesis by (simp add: clean_not_text)
next
  case False
  from clean_tail [OF False] obtain x where
    x: "cleanMarkdownForSpeech v =
          trim (replace re_whitespace (Text [blank]) (replace re_symbols (Text []) x))" ..
  show ?thesis unfolding x replace_def
    by (rule trim_run) (rule replace_whitespace_run)
qed

lemma clean_outer:
  "cleanMarkdownForSpeech v \<noteq> [] \<Longrightarrow>
   \<not> is_space (hd (cleanMarkdownForSpeech v)) \<and> \<not> is_space (last (cleanMarkdownForSpeech v))"
proof -
  assume ne: "cleanMarkdownForSpeech v \<noteq> []"
  then have "\<not> not_a_text v" using clean_not_text by blast
  from clean_tail [OF this] obtain x where
    x: "cleanMarkdownForSpeech v =
          trim (replace re_whitespace (Text [blank]) (replace re_symbols (Text []) x))" ..
  show ?thesis using ne unfolding x by (rule trim_outer)
qed

text \<open>
  The steps on a text of four lines with a header, emphasis, inline code, strikethrough,
  table bars, a link, a horizontal rule and a code block.
\<close>

lemma cleaning_example:
  "cleanMarkdownForSpeech
     (JSString (js ''# Title'' @ [0x0A] @
                js ''Some **bold** and _it_ `code` ~~gone~~ | t |  [l](u)  '' @ [0x0A] @
                js ''---'' @ [0x0A] @
                js ''```js x``` end  ''))
   = js ''Title Some bold and it code gone t l code block end''"
  by code_simp

text \<open>
  Claim C8. \<open>cleanMarkdownForSpeech\<close> returns the empty string for \<open>null\<close>, for
  \<open>undefined\<close>, for the empty string and for every value that is not a string. For every
  non-empty string, the result contains none of the characters \<open>#\<close>, \<open>*\<close>, \<open>_\<close>, the
  backtick, \<open>~\<close> and \<open>|\<close>, neither starts nor ends with white space, and has no two
  white-space characters in a row.
\<close>

theorem cleanMarkdownForSpeech_plain:
  "cleanMarkdownForSpeech JSNull = [] \<and>
   cleanMarkdownForSpeech JSUndefined = [] \<and>
   cleanMarkdownForSpeech (JSString []) = [] \<and>
   ((\<forall>s. v \<noteq> JSString s) \<longrightarrow> cleanMarkdownForSpeech v = []) \<and>
   (text \<noteq> [] \<longrightarrow>
      (\<forall>c \<in> set (cleanMarkdownForSpeech (JSString text)).
          c \<notin> {hash, star, underscore, backtick, tilde, pipe}) \<and>
      (cleanMarkdownForSpeech (JSString text) \<noteq> [] \<longrightarrow>
          \<not> is_space (hd (cleanMarkdownForSpeech (JSString text))) \<and>
          \<not> is_space (last (cleanMarkdownForSpeech (JSString text)))) \<and>
      (\<forall>i. Suc i < length (cleanMarkdownForSpeech (JSString text)) \<longrightarrow>
          \<not> (is_space (cleanMarkdownForSpeech (JSString text) ! i) \<and>
             is_space (cleanMarkdownForSpeech (JSString text) ! Suc i))))"
proof -
  have a: "(\<forall>s. v \<noteq> JSString s) \<longrightarrow> cleanMarkdownForSpeech v = []"
    by (cases v) (simp_all add: clean_not_text)
  have b: "\<forall>c \<in> set (cleanMarkdownForSpeech (JSString text)).
             c \<notin> {hash, star, underscore, backtick, tilde, pipe}"
    using clean_symbols [of _ "JSString text"] by (simp add: markdown_symbols_def)
  have c: "\<forall>i. Suc i < length (cleanMarkdownForSpeech (JSString text)) \<longrightarrow>
          \<not> (is_space (cleanMarkdownForSpeech (JSString text) ! i) \<and>
             is_space (cleanMarkdownForSpeech (JSString text) ! Suc i))"
    using no_space_run_nth [OF clean_run [of "JSString text"]] by blast
  show ?thesis
    using a b c clean_outer [of "JSString text"] by (simp add: clean_not_text)
qed

text \<open>
  On the number 3, which is not a string, and on the text \<open># a  *b* \<close>, which becomes
  \<open>a b\<close>.
\<close>

theorem cleanMarkdownForSpeech_plain_witness:
  "cleanMarkdownForSpeech (JSNumber 3) = [] \<and>
   js ''# a  *b* '' \<noteq> [] \<and>
   cleanMarkdownForSpeech (JSString (js ''# a  *b* '')) = js ''a b'' \<and>
   hash \<notin> set (cleanMarkdownForSpeech (JSString (js ''# a  *b* ''))) \<and>
   star \<notin> set (cleanMarkdownForSpeech (JSString (js ''# a  *b* ''))) \<and>
   \<not> is_space (hd (cleanMarkdownForSpeech (JSString (js ''# a  *b* '')))) \<and>
   \<not> is_space (last (cleanMarkdownForSpeech (JSString (js ''# a  *b* ''))))"
proof -
  have h1: "\<forall>s. JSNumber 3 \<noteq> JSString s" by simp
  have h2: "js ''# a  *b* '' \<noteq> []" by (simp add: js_def)
  have e: "cleanMarkdownForSpeech (JSString (js ''# a  *b* '')) = js ''a b''" by code_simp
  have h3: "cleanMarkdownForSpeech (JSString (js ''# a  *b* '')) \<noteq> []"
    unfolding e by (simp add: js_def)
  from cleanMarkdownForSpeech_plain [of "JSNumber 3" "js ''# a  *b* ''"] h1 h2 h3
  have "cleanMarkdownForSpeech (JSNumber 3) = [] \<and>
        hash \<notin> set (cleanMarkdownForSpeech (JSString (js ''# a  *b* ''))) \<and>
        star \<notin> set (cleanMarkdownForSpeech (JSString (js ''# a  *b* ''))) \<and>
        \<not> is_space (hd (cleanMarkdownForSpeech (JSString (js ''# a  *b* '')))) \<and>
        \<not> is_space (last (cleanMarkdownForSpeech (JSString (js ''# a  *b* ''))))"
    by blast
  with h2 e show ?thesis by blast
qed

lemma test_needs: "\<forall>c \<in> set s. c \<notin> set markdown_symbols \<Longrightarrow> x \<in> set markdown_symbols \<Longrightarrow>
   list_ex (needs x) re \<Longrightarrow> \<not> test re s"
  unfolding test_def by (rule test_from_needs) auto

text \<open>
  Claim C9, as stated: \<open>hasMarkdownSyntax (cleanMarkdownForSpeech text)\<close> is false for
  every string. It fails for five of the thirteen patterns. The list item \<open>- item\<close> and
  the numbered item \<open>1. item\<close> come back unchanged; of the two blockquote markers of
  \<open>>> a\<close> one is left; of the nested links of \<open>[[a](b)](c)\<close> the outer one is left; and
  \<open>![a]#(b)\<close> becomes the image \<open>![a](b)\<close> when the \<open>#\<close> is deleted.
\<close>

theorem cleaned_text_has_markdown:
  "hasMarkdownSyntax (JSString (cleanMarkdownForSpeech (JSString (js ''- item'')))) \<and>
   hasMarkdownSyntax (JSString (cleanMarkdownForSpeech (JSString (js ''1. item'')))) \<and>
   hasMarkdownSyntax (JSString (cleanMarkdownForSpeech (JSString (js ''>> a'')))) \<and>
   hasMarkdownSyntax (JSString (cleanMarkdownForSpeech (JSString (js ''[[a](b)](c)'')))) \<and>
   hasMarkdownSyntax (JSString (cleanMarkdownForSpeech (JSString (js ''![a]#(b)''))))"
  by code_simp

text \<open>
  Claim C9, amended: for every input, the cleaned text matches none of the patterns of
  \<open>hasMarkdownSyntax\<close> for headers, bold, italic, inline code, code blocks and
  strikethrough, and \<open>hasMarkdownSyntax\<close> of the cleaned text is true exactly when the
  cleaned text matches the link, image, blockquote, bulleted-list or numbered-list
  pattern.
\<close>

theorem cleaned_text_patterns:
  "\<not> test re_header (cleanMarkdownForSpeech v) \<and>
   \<not> test re_bold_star (cleanMarkdownForSpeech v) \<and>
   \<not> test re_bold_underscore (cleanMarkdownForSpeech v) \<and>
   \<not> test re_italic_star (cleanMarkdownForSpeech v) \<and>
   \<not> test re_italic_underscore (cleanMarkdownForSpeech v) \<and>
   \<not> test re_inline_code (cleanMarkdownForSpeech v) \<and>
   \<not> test re_code_block (cleanMarkdownForSpeech v) \<and>
   \<not> test re_strikethrough (cleanMarkdownForSpeech v) \<and>
   (hasMarkdownSyntax (JSString (cleanMarkdownForSpeech v)) \<longleftrightarrow>
      test re_link (cleanMarkdownForSpeech v) \<or> test re_image (cleanMarkdownForSpeech v) \<or>
      test re_blockquote (cleanMarkdownForSpeech v) \<or> test re_list (cleanMarkdownForSpeech v) \<or>
      test re_numbered_list (cleanMarkdownForSpeech v))"
proof -
  let ?r = "cleanMarkdownForSpeech v"
  have free: "\<forall>c \<in> set ?r. c \<notin> set markdown_symbols" using clean_symbols by blast
  have 1: "\<not> test re_header ?r"
    by (rule test_needs [OF free, of hash]) (simp_all add: markdown_symbols_def re_header_def)
  have 2: "\<not> test re_bold_star ?r"
    by (rule test_needs [OF free, of star]) (simp_all add: markdown_symbols_def re_bold_star_def)
  have 3: "\<not> test re_bold_underscore ?r"
    by (rule test_needs [OF free, of underscore])
      (simp_all add: markdown_symbols_def re_bold_underscore_def)
  have 4: "\<not> test re_italic_star ?r"
    by (rule test_needs [OF free, of star]) (simp_all add: markdown_symbols_def re_italic_star_def)
  have 5: "\<not> test re_italic_underscore ?r"
    by (rule test_needs [OF free, of underscore])
      (simp_all add: markdown_symbols_def re_italic_underscore_def)
  have 6: "\<not> test re_inline_code ?r"
    by (rule test_needs [OF free, of backtick])
      (simp_all add: markdown_symbols_def re_inline_code_def)
  have 7: "\<not> test re_code_block ?r"
    by (rule test_needs [OF free, of backtick])
      (simp_all add: markdown_symbols_def re_code_block_def)
  have 8: "\<not> test re_strikethrough ?r"
    by (rule test_needs [OF free, of tilde])
      (simp_all add: markdown_symbols_def re_strikethrough_def)
  have empty: "\<not> test re_link [] \<and> \<not> test re_image [] \<and> \<not> test re_blockquote [] \<and>
               \<not> test re_list [] \<and> \<not> test re_numbered_list []"
    by (simp add: test_def re_link_def re_image_def re_blockquote_def re_list_def
        re_numbered_list_def rmatch_Rep_Nil)
  have "hasMarkdownSyntax (JSString ?r) \<longleftrightarrow>
      test re_link ?r \<or> test re_image ?r \<or> test re_blockquote ?r \<or> test re_list ?r \<or>
      test re_numbered_list ?r"
  proof (cases "?r = []")
    case True
    then show ?thesis using empty by (simp add: hasMarkdownSyntax_def)
  next
    case False
    then show ?thesis using 1 2 3 4 5 6 7 8
      by (simp add: hasMarkdownSyntax_def markdownPatterns_def)
  qed
  with 1 2 3 4 5 6 7 8 show ?thesis by blast
qed

text \<open>
  On the list item \<open>- item\<close>, which cleaning returns as it is: of the patterns of
  \<open>hasMarkdownSyntax\<close> it matches the one for bulleted lists, and not the one for headers.
\<close>

theorem cleaned_text_patterns_witness:
  "cleanMarkdownForSpeech (JSString (js ''- item'')) = js ''- item'' \<and>
   test re_list (js ''- item'') \<and>
   \<not> test re_header (js ''- item'') \<and>
   hasMarkdownSyntax (JSString (js ''- item''))"
proof -
  have e: "cleanMarkdownForSpeech (JSString (js ''- item'')) = js ''- item''" by code_simp
  have l: "test re_list (js ''- item'')" by code_simp
  from cleaned_text_patterns [of "JSString (js ''- item'')"] e l show ?thesis by simp
qed

text \<open>
  What is left in the five texts of the counterexample, and the pattern it matches.
\<close>

lemma cleaning_leaves_markup:
  "cleanMarkdownForSpeech (JSString (js ''1. item'')) = js ''1. item''"
  "test re_numbered_list (js ''1. item'')"
  "cleanMarkdownForSpeech (JSString (js ''>> a'')) = js ''> a''"
  "test re_blockquote (js ''> a'')"
  "cleanMarkdownForSpeech (JSString (js ''[[a](b)](c)'')) = js ''[a](c)''"
  "test re_link (js ''[a](c)'')"
  "cleanMarkdownForSpeech (JSString (js ''![a]#(b)'')) = js ''![a](b)''"
  "test re_image (js ''![a](b)'')"
  by code_simp+

text \<open>
  A list marker does not always survive: the star of \<open>* item\<close> is deleted with the other
  symbols, and the hyphen of the second line of a text is no longer at the start of a line
  once the line break has become a blank.
\<close>

lemma cleaning_can_remove_list_markers:
  "cleanMarkdownForSpeech (JSString (js ''* item'')) = js ''item''"
  "\<not> hasMarkdownSyntax (JSString (js ''item''))"
  "cleanMarkdownForSpeech (JSString (js ''a'' @ [0x0A] @ js ''- b'')) = js ''a - b''"
  "\<not> hasMarkdownSyntax (JSString (js ''a - b''))"
  by code_simp+

end
